theory Spec2Isabelle
  imports Main
begin

section \<open>URLs and the platform parser\<close>

text \<open>
  \<^verbatim>\<open>main.js\<close> reads two fields of a parsed URL: \<^verbatim>\<open>protocol\<close> (the scheme with its
  colon, as in \<^verbatim>\<open>'https:'\<close>) and \<^verbatim>\<open>hostname\<close>. The constructor \<^verbatim>\<open>new URL(s)\<close> belongs
  to the platform, not to the program: it is a parameter \<open>parse\<close> of every function that
  calls it, and \<open>None\<close> stands for the \<^verbatim>\<open>TypeError\<close> it throws on a string that is not a
  URL. Every theorem below holds for any such parser.
\<close>

record url =
  protocol :: string
  hostname :: string

type_synonym url_parser = "string \<Rightarrow> url option"

text \<open>
  \<^verbatim>\<open>String.prototype.toLowerCase\<close> on the letters A to Z (the hostname of a parsed
  \<^verbatim>\<open>https:\<close> URL is ASCII), and \<^verbatim>\<open>String.prototype.endsWith\<close>.
\<close>

definition lowerChar :: "char \<Rightarrow> char" where
  "lowerChar c =
     (if (65::nat) \<le> of_char c \<and> of_char c \<le> (90::nat)
      then (case c of Char b0 b1 b2 b3 b4 b5 b6 b7 \<Rightarrow> Char b0 b1 b2 b3 b4 True b6 b7)
      else c)"

definition toLowerCase :: "string \<Rightarrow> string" where
  "toLowerCase s = map lowerChar s"

definition endsWith :: "string \<Rightarrow> string \<Rightarrow> bool" where
  "endsWith s t = (length t \<le> length s \<and> drop (length s - length t) s = t)"

section \<open>Domain policy\<close>

definition ALLOWED_HOSTS :: "string list" where
  "ALLOWED_HOSTS =
     [''grok.com'', ''x.ai'', ''cloudflare.com'', ''xai.com'',
      ''cloudflareinsights.com'', ''grokipedia.com'', ''grokusercontent.com'']"

text \<open>
  \<^verbatim>\<open>isAllowed\<close>: the \<^verbatim>\<open>try\<close> block parses, rejects every protocol but \<^verbatim>\<open>'https:'\<close>,
  lower-cases the hostname and tests it against each entry with \<^verbatim>\<open>some\<close>; the
  \<^verbatim>\<open>catch\<close> returns \<^verbatim>\<open>false\<close>.
\<close>

definition isAllowed :: "url_parser \<Rightarrow> string \<Rightarrow> bool" where
  "isAllowed parse urlString =
     (case parse urlString of
        None \<Rightarrow> False
      | Some u \<Rightarrow>
          if protocol u \<noteq> ''https:'' then False
          else (let host = toLowerCase (hostname u)
                in list_ex (\<lambda>a. host = a \<or> endsWith host (''.'' @ a)) ALLOWED_HOSTS))"

definition isHttpUrl :: "url \<Rightarrow> bool" where
  "isHttpUrl u = (protocol u = ''http:'' \<or> protocol u = ''https:'')"

definition shouldOpenExternally :: "url_parser \<Rightarrow> string \<Rightarrow> bool" where
  "shouldOpenExternally parse targetUrl =
     (case parse targetUrl of
        None \<Rightarrow> False
      | Some u \<Rightarrow> if \<not> isHttpUrl u then False else \<not> isAllowed parse targetUrl)"

text \<open>
  The allow-list rule in the words of the specification: the hostname, compared without
  regard to case, equals an entry or ends with a dot followed by an entry.
\<close>

definition ci_equal :: "string \<Rightarrow> string \<Rightarrow> bool" where
  "ci_equal x y = (toLowerCase x = toLowerCase y)"

definition ci_endsWith :: "string \<Rightarrow> string \<Rightarrow> bool" where
  "ci_endsWith x y = endsWith (toLowerCase x) (toLowerCase y)"

definition matches_entry :: "string \<Rightarrow> string \<Rightarrow> bool" where
  "matches_entry h a = (ci_equal h a \<or> ci_endsWith h (''.'' @ a))"

definition isAllowed_spec :: "url_parser \<Rightarrow> string \<Rightarrow> bool" where
  "isAllowed_spec parse s =
     (case parse s of
        None \<Rightarrow> False
      | Some u \<Rightarrow> protocol u = ''https:'' \<and> (\<exists>a \<in> set ALLOWED_HOSTS. matches_entry (hostname u) a))"

section \<open>Effects\<close>

text \<open>
  What the program asks of its collaborators, in the order it asks: a console line, a
  URL handed to the default browser, a call on a window, a notification, a quit request.
  Windows are named by their index in the list of all windows created so far.
\<close>

datatype effect =
    ConsoleLog string string
  | OpenExternal string
  | WinFocus nat
  | WinShow nat
  | WinRestore nat
  | LoadURL nat string
  | NotificationShow
  | AppQuit

section \<open>Navigation interceptor\<close>

text \<open>
  The \<^verbatim>\<open>onBeforeRequest\<close> callback answers through \<^verbatim>\<open>cb({ cancel })\<close>; the model returns
  the value of \<^verbatim>\<open>cancel\<close> with the effects. A URL that does not parse reaches the
  \<^verbatim>\<open>catch\<close>, which cancels and logs nothing.
\<close>

definition onBeforeRequest :: "url_parser \<Rightarrow> string \<Rightarrow> bool \<times> effect list" where
  "onBeforeRequest parse details_url =
     (case parse details_url of
        None \<Rightarrow> (True, [])
      | Some u \<Rightarrow>
          if protocol u \<noteq> ''http:'' \<and> protocol u \<noteq> ''https:'' then (False, [])
          else if \<not> isAllowed parse details_url
               then (True, [ConsoleLog ''[BLOCKED]'' details_url])
               else (False, []))"

datatype window_open_action = Deny | Allow

definition windowOpenHandler :: "url_parser \<Rightarrow> string \<Rightarrow> window_open_action \<times> effect list" where
  "windowOpenHandler parse target =
     (Deny,
      case parse target of
        None \<Rightarrow> []
      | Some u \<Rightarrow>
          if protocol u = ''http:'' \<or> protocol u = ''https:'' then [OpenExternal target] else [])"

text \<open>
  \<^verbatim>\<open>will-navigate\<close> and \<^verbatim>\<open>will-redirect\<close>: the first component is whether
  \<^verbatim>\<open>e.preventDefault()\<close> was called.
\<close>

definition will_navigate :: "url_parser \<Rightarrow> string \<Rightarrow> bool \<times> effect list" where
  "will_navigate parse target =
     (if shouldOpenExternally parse target then (True, [OpenExternal target]) else (False, []))"

definition will_redirect :: "url_parser \<Rightarrow> string \<Rightarrow> bool \<times> effect list" where
  "will_redirect parse target =
     (if shouldOpenExternally parse target then (True, [OpenExternal target]) else (False, []))"

section \<open>Sample parse results\<close>

text \<open>
  The values \<^verbatim>\<open>new URL\<close> returns on a few strings, for evaluating the functions at
  concrete inputs; a string outside the table stands for one that does not parse.
\<close>

definition sample_URL :: url_parser where
  "sample_URL = map_of
     [(''https://grok.com/'', \<lparr>protocol = ''https:'', hostname = ''grok.com''\<rparr>),
      (''https://grok.com/chat/42'', \<lparr>protocol = ''https:'', hostname = ''grok.com''\<rparr>),
      (''https://accounts.x.ai/login'', \<lparr>protocol = ''https:'', hostname = ''accounts.x.ai''\<rparr>),
      (''http://grok.com/'', \<lparr>protocol = ''http:'', hostname = ''grok.com''\<rparr>),
      (''https://notgrok.com.evil.net/'', \<lparr>protocol = ''https:'', hostname = ''notgrok.com.evil.net''\<rparr>),
      (''https://example.org/'', \<lparr>protocol = ''https:'', hostname = ''example.org''\<rparr>),
      (''mailto:someone@grok.com'', \<lparr>protocol = ''mailto:'', hostname = []\<rparr>),
      (''file:///etc/passwd'', \<lparr>protocol = ''file:'', hostname = []\<rparr>)]"

section \<open>Restore-state store\<close>

text \<open>
  The state file holds a JSON text. \<^verbatim>\<open>JSON.parse\<close> and \<^verbatim>\<open>JSON.stringify\<close> belong to
  the platform; the model keeps a file's text up to what \<^verbatim>\<open>JSON.parse\<close> makes of it:
  either a text it rejects with a \<^verbatim>\<open>SyntaxError\<close>, or the text of a JSON value, which
  is what \<^verbatim>\<open>JSON.stringify\<close> writes. Numbers are integers (\<^verbatim>\<open>Date.now()\<close> is one).
\<close>

datatype json =
    JNull
  | JBool bool
  | JNumber int
  | JString string
  | JArray "json list"
  | JObject "(string \<times> json) list"

datatype file_text = NotJSON string | JSONText json

definition JSON_stringify :: "json \<Rightarrow> file_text" where
  "JSON_stringify v = JSONText v"

definition JSON_parse :: "file_text \<Rightarrow> json option" where
  "JSON_parse t = (case t of NotJSON _ \<Rightarrow> None | JSONText v \<Rightarrow> Some v)"

text \<open>
  \<^verbatim>\<open>data?.restoreUrl\<close>: \<open>None\<close> is \<^verbatim>\<open>undefined\<close>. Only an object can hold the key (no
  prototype has a property of that name, and \<^verbatim>\<open>?.\<close> covers \<^verbatim>\<open>null\<close>); where a JSON text
  repeats a key, \<^verbatim>\<open>JSON.parse\<close> keeps the last value.
\<close>

definition property :: "json \<Rightarrow> string \<Rightarrow> json option" where
  "property data k = (case data of JObject kvs \<Rightarrow> map_of (rev kvs) k | _ \<Rightarrow> None)"

text \<open>
  The file system as far as the program touches it: the state file (absent or a text)
  and, each on its own, whether the file may be read, whether it may be written, and
  whether it may be removed from its directory. Each of the three \<^verbatim>\<open>fs\<close> calls either
  throws or succeeds.
\<close>

datatype io_error = ENOENT | EACCES

record fs =
  state_file :: "file_text option"
  can_read :: bool
  can_write :: bool
  can_unlink :: bool

definition readFileSync :: "fs \<Rightarrow> io_error + file_text" where
  "readFileSync f =
     (case state_file f of
        None \<Rightarrow> Inl ENOENT
      | Some t \<Rightarrow> if can_read f then Inr t else Inl EACCES)"

definition writeFileSync :: "fs \<Rightarrow> file_text \<Rightarrow> io_error + fs" where
  "writeFileSync f t = (if can_write f then Inr (f\<lparr>state_file := Some t\<rparr>) else Inl EACCES)"

definition unlinkSync :: "fs \<Rightarrow> io_error + fs" where
  "unlinkSync f =
     (case state_file f of
        None \<Rightarrow> Inl ENOENT
      | Some t \<Rightarrow> if can_unlink f then Inr (f\<lparr>state_file := None\<rparr>) else Inl EACCES)"

text \<open>
  The three operations of \<^verbatim>\<open>main.js\<close>; each \<^verbatim>\<open>catch\<close> swallows the error. \<open>now\<close> is
  the value of \<^verbatim>\<open>Date.now()\<close>.
\<close>

definition writeRestoreUrl :: "fs \<Rightarrow> string \<Rightarrow> int \<Rightarrow> fs" where
  "writeRestoreUrl f u now =
     (case writeFileSync f
             (JSON_stringify (JObject [(''restoreUrl'', JString u), (''ts'', JNumber now)])) of
        Inl _ \<Rightarrow> f
      | Inr f' \<Rightarrow> f')"

definition readRestoreUrl :: "fs \<Rightarrow> string option" where
  "readRestoreUrl f =
     (case readFileSync f of
        Inl _ \<Rightarrow> None
      | Inr raw \<Rightarrow>
          (case JSON_parse raw of
             None \<Rightarrow> None
           | Some data \<Rightarrow>
               (case property data ''restoreUrl'' of
                  Some (JString r) \<Rightarrow> Some r
                | _ \<Rightarrow> None)))"

definition clearRestoreUrl :: "fs \<Rightarrow> fs" where
  "clearRestoreUrl f = (case unlinkSync f of Inl _ \<Rightarrow> f | Inr f' \<Rightarrow> f')"

section \<open>Shell state\<close>

text \<open>
  A \<^verbatim>\<open>BrowserWindow\<close> as the program observes it, with the two one-shot hooks that
  \<^verbatim>\<open>createWindow\<close> may register on its \<^verbatim>\<open>webContents\<close>. All windows ever created are
  kept in a list; the module variable \<^verbatim>\<open>win\<close> is \<^verbatim>\<open>null\<close> or the index of one of them.
\<close>

record window =
  destroyed :: bool
  focused :: bool
  visible :: bool
  minimized :: bool
  current_url :: string
  clear_on_finish :: bool
  clear_on_fail :: bool

record shell =
  win :: "nat option"
  isWindowCreationStarted :: bool
  all_windows :: "window list"
  files :: fs
  trace :: "effect list"

record env =
  parse_url :: url_parser
  notification_supported :: bool
  platform :: string

definition initial :: "fs \<Rightarrow> shell" where
  "initial f =
     \<lparr>win = None, isWindowCreationStarted = False, all_windows = [], files = f, trace = []\<rparr>"

text \<open>\<^verbatim>\<open>win && !win.isDestroyed()\<close>: the window \<^verbatim>\<open>win\<close> refers to, when it is live.\<close>

definition live_win :: "shell \<Rightarrow> nat option" where
  "live_win s =
     (case win s of
        None \<Rightarrow> None
      | Some i \<Rightarrow>
          if i < length (all_windows s) \<and> \<not> destroyed (all_windows s ! i) then Some i else None)"

definition getAllWindows :: "shell \<Rightarrow> window list" where
  "getAllWindows s = filter (\<lambda>w. \<not> destroyed w) (all_windows s)"

definition emit :: "effect \<Rightarrow> shell \<Rightarrow> shell" where
  "emit x s = s\<lparr>trace := trace s @ [x]\<rparr>"

definition update_window :: "nat \<Rightarrow> (window \<Rightarrow> window) \<Rightarrow> shell \<Rightarrow> shell" where
  "update_window i g s = s\<lparr>all_windows := (all_windows s)[i := g (all_windows s ! i)]\<rparr>"

text \<open>
  The window calls of the host, on a live window: \<^verbatim>\<open>restore\<close> leaves the minimized
  state, \<^verbatim>\<open>show\<close> makes the window visible and gives it focus, \<^verbatim>\<open>focus\<close> gives it focus.
\<close>

definition win_restore :: "nat \<Rightarrow> shell \<Rightarrow> shell" where
  "win_restore i s = emit (WinRestore i) (update_window i (\<lambda>w. w\<lparr>minimized := False\<rparr>) s)"

definition win_show :: "nat \<Rightarrow> shell \<Rightarrow> shell" where
  "win_show i s =
     emit (WinShow i) (update_window i (\<lambda>w. w\<lparr>visible := True, focused := True\<rparr>) s)"

definition win_focus :: "nat \<Rightarrow> shell \<Rightarrow> shell" where
  "win_focus i s = emit (WinFocus i) (update_window i (\<lambda>w. w\<lparr>focused := True\<rparr>) s)"

definition safeGetCurrentUrl :: "url_parser \<Rightarrow> shell \<Rightarrow> string option" where
  "safeGetCurrentUrl parse s =
     (case live_win s of
        None \<Rightarrow> None
      | Some i \<Rightarrow>
          (let u = current_url (all_windows s ! i)
           in if u = [] \<or> \<not> isAllowed parse u then None else Some u))"

section \<open>Single-instance coordinator\<close>

text \<open>
  The \<^verbatim>\<open>second-instance\<close> handler of \<^verbatim>\<open>main.js\<close>. The guard returns when \<^verbatim>\<open>win\<close> is
  \<^verbatim>\<open>null\<close> or destroyed. A focused, visible, not minimized window saves its URL, when
  \<^verbatim>\<open>safeGetCurrentUrl\<close> yields one, and quits; any other window is brought forward, with
  a notification where the host supports one.
\<close>

definition bring_forward :: "nat \<Rightarrow> shell \<Rightarrow> shell" where
  "bring_forward i s =
     (let s1 = (if minimized (all_windows s ! i) then win_restore i s else s);
          s2 = (if \<not> visible (all_windows s1 ! i) then win_show i s1 else s1)
      in win_focus i s2)"

definition second_instance :: "env \<Rightarrow> int \<Rightarrow> shell \<Rightarrow> shell" where
  "second_instance e now s =
     (case live_win s of
        None \<Rightarrow> s
      | Some i \<Rightarrow>
          (let w = all_windows s ! i
           in if focused w \<and> visible w \<and> \<not> minimized w
              then (let s1 = (case safeGetCurrentUrl (parse_url e) s of
                                None \<Rightarrow> s
                              | Some u \<Rightarrow> s\<lparr>files := writeRestoreUrl (files s) u now\<rparr>)
                    in emit AppQuit s1)
              else (let s3 = bring_forward i s
                    in if notification_supported e then emit NotificationShow s3 else s3)))"

text \<open>
  The click handler of the notification: \<^verbatim>\<open>restore\<close> when minimized, then \<^verbatim>\<open>show\<close> and
  \<^verbatim>\<open>focus\<close>. With \<^verbatim>\<open>win\<close> null or destroyed the first call throws and nothing happens.
\<close>

definition notification_click :: "shell \<Rightarrow> shell" where
  "notification_click s =
     (case live_win s of
        None \<Rightarrow> s
      | Some i \<Rightarrow>
          (let s1 = (if minimized (all_windows s ! i) then win_restore i s else s)
           in win_focus i (win_show i s1)))"

text \<open>
  The earlier revision kept in the repository (\<^verbatim>\<open>part_000\<close>) has its own allow-list;
  its \<^verbatim>\<open>isAllowed\<close> and \<^verbatim>\<open>safeGetCurrentUrl\<close> read as those of \<^verbatim>\<open>main.js\<close> do, over that
  list.
\<close>

definition ALLOWED_HOSTS_part_000 :: "string list" where
  "ALLOWED_HOSTS_part_000 =
     [''grok.com'', ''accounts.x.ai'', ''challenges.cloudflare.com'', ''api.x.ai'',
      ''api.grok.xai.com'', ''console.x.ai'', ''docs.x.ai'', ''x.ai'', ''cloudflare.com'',
      ''cloudflareinsights.com'', ''auth.grokipedia.com'', ''grokipedia.com'',
      ''auth.grokusercontent.com'']"

definition isAllowed_part_000 :: "url_parser \<Rightarrow> string \<Rightarrow> bool" where
  "isAllowed_part_000 parse urlString =
     (case parse urlString of
        None \<Rightarrow> False
      | Some u \<Rightarrow>
          if protocol u \<noteq> ''https:'' then False
          else (let host = toLowerCase (hostname u)
                in list_ex (\<lambda>a. host = a \<or> endsWith host (''.'' @ a)) ALLOWED_HOSTS_part_000))"

definition safeGetCurrentUrl_part_000 :: "url_parser \<Rightarrow> shell \<Rightarrow> string option" where
  "safeGetCurrentUrl_part_000 parse s =
     (case live_win s of
        None \<Rightarrow> None
      | Some i \<Rightarrow>
          (let u = current_url (all_windows s ! i)
           in if u = [] \<or> \<not> isAllowed_part_000 parse u then None else Some u))"

text \<open>
  The \<^verbatim>\<open>second-instance\<close> handler of \<^verbatim>\<open>part_000\<close>: its guard is \<^verbatim>\<open>if (!win) return\<close>
  alone, and it calls \<^verbatim>\<open>show\<close> a second time before \<^verbatim>\<open>focus\<close>. A method call on a
  destroyed window throws, which ends the handler.
\<close>

datatype js_error = ObjectDestroyed

definition second_instance_part_000 :: "env \<Rightarrow> int \<Rightarrow> shell \<Rightarrow> js_error + shell" where
  "second_instance_part_000 e now s =
     (case win s of
        None \<Rightarrow> Inr s
      | Some i \<Rightarrow>
          if live_win s = None then Inl ObjectDestroyed
          else
            (let w = all_windows s ! i
             in if focused w \<and> visible w \<and> \<not> minimized w
                then (let s1 = (case safeGetCurrentUrl_part_000 (parse_url e) s of
                                  None \<Rightarrow> s
                                | Some u \<Rightarrow> s\<lparr>files := writeRestoreUrl (files s) u now\<rparr>)
                      in Inr (emit AppQuit s1))
                else (let s1 = (if minimized w then win_restore i s else s);
                          s2 = (if \<not> visible (all_windows s1 ! i) then win_show i s1 else s1);
                          s3 = win_focus i (win_show i s2)
                      in Inr (if notification_supported e then emit NotificationShow s3 else s3))))"

section \<open>Shell window controller\<close>

definition default_url :: string where
  "default_url = ''https://grok.com/''"

text \<open>
  The constant \<^verbatim>\<open>startUrl\<close> of \<^verbatim>\<open>createWindow\<close>: \<^verbatim>\<open>restoreUrl && isAllowed(restoreUrl)\<close>
  holds of a string that is not empty and is allowed.
\<close>

definition startUrl :: "url_parser \<Rightarrow> fs \<Rightarrow> string" where
  "startUrl parse f =
     (case readRestoreUrl f of
        None \<Rightarrow> default_url
      | Some r \<Rightarrow> if r \<noteq> [] \<and> isAllowed parse r then r else default_url)"

text \<open>
  \<^verbatim>\<open>createWindow\<close>. Under the guard it focuses the live window, if there is one, and
  returns. Otherwise it sets the flag, creates the window (shown and focused, no page
  yet), registers the two one-shot hooks when the start URL is not the default, and
  loads the start URL. The request filter, the menus and the navigation handlers it
  installs are the functions of the sections above.
\<close>

definition new_window :: "bool \<Rightarrow> window" where
  "new_window hooks =
     \<lparr>destroyed = False, focused = True, visible = True, minimized = False,
      current_url = [], clear_on_finish = hooks, clear_on_fail = hooks\<rparr>"

definition createWindow :: "env \<Rightarrow> shell \<Rightarrow> shell" where
  "createWindow e s =
     (if isWindowCreationStarted s \<or> live_win s \<noteq> None
      then (case live_win s of None \<Rightarrow> s | Some i \<Rightarrow> win_focus i s)
      else
        (let i = length (all_windows s);
             start = startUrl (parse_url e) (files s)
         in emit (LoadURL i start)
              (s\<lparr>isWindowCreationStarted := True,
                 win := Some i,
                 all_windows := all_windows s @ [new_window (start \<noteq> default_url)]\<rparr>)))"

text \<open>
  The \<^verbatim>\<open>closed\<close> handler runs when the host has destroyed the window: it resets
  \<^verbatim>\<open>win\<close> and the flag.
\<close>

definition window_closed :: "nat \<Rightarrow> shell \<Rightarrow> shell" where
  "window_closed i s =
     (if i < length (all_windows s) \<and> \<not> destroyed (all_windows s ! i)
      then (update_window i (\<lambda>w. w\<lparr>destroyed := True\<rparr>) s)
             \<lparr>win := None, isWindowCreationStarted := False\<rparr>
      else s)"

text \<open>
  \<^verbatim>\<open>once('did-finish-load', clearRestoreUrl)\<close> and \<^verbatim>\<open>once('did-fail-load', clearRestoreUrl)\<close>:
  a registered hook runs at the first event of its kind and is then gone.
\<close>

definition did_finish_load :: "nat \<Rightarrow> shell \<Rightarrow> shell" where
  "did_finish_load i s =
     (if i < length (all_windows s) \<and> \<not> destroyed (all_windows s ! i)
         \<and> clear_on_finish (all_windows s ! i)
      then (update_window i (\<lambda>w. w\<lparr>clear_on_finish := False\<rparr>) s)
             \<lparr>files := clearRestoreUrl (files s)\<rparr>
      else s)"

definition did_fail_load :: "nat \<Rightarrow> shell \<Rightarrow> shell" where
  "did_fail_load i s =
     (if i < length (all_windows s) \<and> \<not> destroyed (all_windows s ! i)
         \<and> clear_on_fail (all_windows s ! i)
      then (update_window i (\<lambda>w. w\<lparr>clear_on_fail := False\<rparr>) s)
             \<lparr>files := clearRestoreUrl (files s)\<rparr>
      else s)"

text \<open>
  The events the main process reacts to. \<open>WindowChanged\<close> is the user or the window
  manager changing what a live window reports (focus, visibility, minimized state, URL).
\<close>

datatype event =
    AppReady
  | Activate
  | SecondInstance int
  | WindowClosed nat
  | WindowAllClosed
  | NotificationClick
  | DidFinishLoad nat
  | DidFailLoad nat
  | WindowChanged nat bool bool bool string

definition window_changed :: "nat \<Rightarrow> bool \<Rightarrow> bool \<Rightarrow> bool \<Rightarrow> string \<Rightarrow> shell \<Rightarrow> shell" where
  "window_changed i f v m u s =
     (if i < length (all_windows s) \<and> \<not> destroyed (all_windows s ! i)
      then update_window i
             (\<lambda>w. w\<lparr>focused := f, visible := v, minimized := m, current_url := u\<rparr>) s
      else s)"

fun handle :: "env \<Rightarrow> shell \<Rightarrow> event \<Rightarrow> shell" where
  "handle e s AppReady = createWindow e s"
| "handle e s Activate = (if length (getAllWindows s) = 0 then createWindow e s else s)"
| "handle e s (SecondInstance now) = second_instance e now s"
| "handle e s (WindowClosed i) = window_closed i s"
| "handle e s WindowAllClosed = (if platform e \<noteq> ''darwin'' then emit AppQuit s else s)"
| "handle e s NotificationClick = notification_click s"
| "handle e s (DidFinishLoad i) = did_finish_load i s"
| "handle e s (DidFailLoad i) = did_fail_load i s"
| "handle e s (WindowChanged i f v m u) = window_changed i f v m u s"

definition run :: "env \<Rightarrow> shell \<Rightarrow> event list \<Rightarrow> shell" where
  "run e s evs = foldl (handle e) s evs"

text \<open>
  The invariant of the controller: a window that is not destroyed is the one \<^verbatim>\<open>win\<close>
  refers to, \<^verbatim>\<open>win\<close> refers to a window that is not destroyed, and the flag is set exactly
  while \<^verbatim>\<open>win\<close> is not \<^verbatim>\<open>null\<close>.
\<close>

definition single_window :: "shell \<Rightarrow> bool" where
  "single_window s =
     ((\<forall>i < length (all_windows s). \<not> destroyed (all_windows s ! i) \<longrightarrow> win s = Some i)
      \<and> (\<forall>i. win s = Some i \<longrightarrow> i < length (all_windows s) \<and> \<not> destroyed (all_windows s ! i))
      \<and> (isWindowCreationStarted s \<longleftrightarrow> win s \<noteq> None))"

definition sample_env :: env where
  "sample_env = \<lparr>parse_url = sample_URL, notification_supported = True, platform = ''linux''\<rparr>"

section \<open>Sample states\<close>

text \<open>
  Concrete stores and shell states at which the functions are evaluated: an empty
  store and a store holding a record, both with every permission; a store that refuses
  writes; a store that accepts writes and refuses the unlink; a shell whose only window
  is destroyed while \<^verbatim>\<open>win\<close> still refers to
  it; a shell whose only window reports the given focus, visibility, minimized state
  and URL.
\<close>

definition empty_store :: fs where
  "empty_store = \<lparr>state_file = None, can_read = True, can_write = True, can_unlink = True\<rparr>"

definition record_of :: "string \<Rightarrow> int \<Rightarrow> file_text" where
  "record_of u now = JSONText (JObject [(''restoreUrl'', JString u), (''ts'', JNumber now)])"

definition store_with :: "string \<Rightarrow> fs" where
  "store_with u =
     \<lparr>state_file = Some (record_of u 1700000000000), can_read = True, can_write = True,
      can_unlink = True\<rparr>"

definition read_only_store :: fs where
  "read_only_store = \<lparr>state_file = None, can_read = True, can_write = False, can_unlink = True\<rparr>"

definition sticky_store :: fs where
  "sticky_store = \<lparr>state_file = None, can_read = True, can_write = True, can_unlink = False\<rparr>"

definition closed_shell :: shell where
  "closed_shell =
     \<lparr>win = Some 0, isWindowCreationStarted = True,
      all_windows = [(new_window False)\<lparr>destroyed := True\<rparr>],
      files = empty_store, trace = []\<rparr>"

definition one_window :: "bool \<Rightarrow> bool \<Rightarrow> bool \<Rightarrow> string \<Rightarrow> shell" where
  "one_window f v m u =
     \<lparr>win = Some 0, isWindowCreationStarted = True,
      all_windows = [(new_window False)\<lparr>focused := f, visible := v, minimized := m,
                                           current_url := u\<rparr>],
      files = empty_store, trace = []\<rparr>"

section \<open>Properties of the domain policy\<close>

text \<open>\<open>endsWith\<close> is the suffix test.\<close>

lemma endsWith_iff: "endsWith s t \<longleftrightarrow> (\<exists>p. s = p @ t)"
proof
  assume "endsWith s t"
  then have "s = take (length s - length t) s @ t"
    by (simp add: endsWith_def) (metis append_take_drop_id)
  then show "\<exists>p. s = p @ t" ..
next
  assume "\<exists>p. s = p @ t"
  then show "endsWith s t"
    by (auto simp: endsWith_def)
qed

lemma toLowerCase_append: "toLowerCase (x @ y) = toLowerCase x @ toLowerCase y"
  by (simp add: toLowerCase_def)

lemma ALLOWED_HOSTS_lower: "a \<in> set ALLOWED_HOSTS \<Longrightarrow> toLowerCase a = a"
  by (auto simp: ALLOWED_HOSTS_def toLowerCase_def lowerChar_def)

lemma dot_lower: "toLowerCase ''.'' = ''.''"
  by (simp add: toLowerCase_def lowerChar_def)

lemma matches_entry_code:
  assumes "a \<in> set ALLOWED_HOSTS"
  shows "matches_entry h a \<longleftrightarrow>
         toLowerCase h = a \<or> endsWith (toLowerCase h) (''.'' @ a)"
proof -
  have "toLowerCase (''.'' @ a) = ''.'' @ a"
    using ALLOWED_HOSTS_lower [OF assms] dot_lower
    by (simp only: toLowerCase_append)
  then show ?thesis
    using ALLOWED_HOSTS_lower [OF assms]
    by (simp only: matches_entry_def ci_equal_def ci_endsWith_def)
qed

lemma isAllowed_refines: "isAllowed parse s = isAllowed_spec parse s"
proof (cases "parse s")
  case None
  then show ?thesis by (simp add: isAllowed_def isAllowed_spec_def)
next
  case (Some u)
  have "list_ex (\<lambda>a. toLowerCase (hostname u) = a \<or> endsWith (toLowerCase (hostname u)) (''.'' @ a))
          ALLOWED_HOSTS
        \<longleftrightarrow> (\<exists>a \<in> set ALLOWED_HOSTS. matches_entry (hostname u) a)"
    unfolding list_ex_iff using matches_entry_code by blast
  with Some show ?thesis
    by (simp add: isAllowed_def isAllowed_spec_def Let_def)
qed

lemma sample_URL_unparsed: "sample_URL ''not a url'' = None"
  by (simp add: sample_URL_def)

lemma sample_URL_accounts:
  "sample_URL ''https://accounts.x.ai/login'' = Some \<lparr>protocol = ''https:'', hostname = ''accounts.x.ai''\<rparr>"
  by (simp add: sample_URL_def)

lemma sample_URL_evil:
  "sample_URL ''https://notgrok.com.evil.net/'' =
     Some \<lparr>protocol = ''https:'', hostname = ''notgrok.com.evil.net''\<rparr>"
  by (simp add: sample_URL_def)

lemma sample_URL_http:
  "sample_URL ''http://grok.com/'' = Some \<lparr>protocol = ''http:'', hostname = ''grok.com''\<rparr>"
  by (simp add: sample_URL_def)

lemma sample_URL_mailto:
  "sample_URL ''mailto:someone@grok.com'' = Some \<lparr>protocol = ''mailto:'', hostname = []\<rparr>"
  by (simp add: sample_URL_def)

lemma sample_URL_chat:
  "sample_URL ''https://grok.com/chat/42'' = Some \<lparr>protocol = ''https:'', hostname = ''grok.com''\<rparr>"
  by (simp add: sample_URL_def)

lemma sample_URL_empty: "sample_URL [] = None"
  by (simp add: sample_URL_def)

lemma isAllowed_accounts: "isAllowed sample_URL ''https://accounts.x.ai/login''"
  by (simp add: isAllowed_def sample_URL_accounts ALLOWED_HOSTS_def toLowerCase_def
      lowerChar_def endsWith_def)

lemma isAllowed_evil: "\<not> isAllowed sample_URL ''https://notgrok.com.evil.net/''"
  by (simp add: isAllowed_def sample_URL_evil ALLOWED_HOSTS_def toLowerCase_def
      lowerChar_def endsWith_def)

lemma isAllowed_http: "\<not> isAllowed sample_URL ''http://grok.com/''"
  by (simp add: isAllowed_def sample_URL_http)

lemma isAllowed_chat: "isAllowed sample_URL ''https://grok.com/chat/42''"
  by (simp add: isAllowed_def sample_URL_chat ALLOWED_HOSTS_def toLowerCase_def
      lowerChar_def endsWith_def)

lemma isAllowed_https: "isAllowed parse s \<Longrightarrow> \<exists>u. parse s = Some u \<and> protocol u = ''https:''"
  by (auto simp: isAllowed_def split: option.splits if_splits)

text \<open>
  C2. For every string, \<^verbatim>\<open>isAllowed\<close> is true exactly when the string parses, the
  protocol is \<^verbatim>\<open>https:\<close> and the hostname, compared without regard to case, equals an
  entry of the allow-list or ends with a dot followed by an entry; on a string that does
  not parse it returns false (the model has no other outcome: the \<^verbatim>\<open>catch\<close> turns the
  exception into \<^verbatim>\<open>false\<close>).
\<close>

theorem isAllowed_iff_spec:
  "(isAllowed parse s \<longleftrightarrow>
      (\<exists>u. parse s = Some u \<and> protocol u = ''https:'' \<and>
           (\<exists>a \<in> set ALLOWED_HOSTS.
              ci_equal (hostname u) a \<or> ci_endsWith (hostname u) (''.'' @ a))))
   \<and> (parse s = None \<longrightarrow> isAllowed parse s = False)"
proof -
  have "isAllowed parse s = isAllowed_spec parse s"
    by (rule isAllowed_refines)
  then show ?thesis
    by (auto simp: isAllowed_spec_def matches_entry_def split: option.splits)
qed

theorem isAllowed_iff_spec_witness:
  "sample_URL ''not a url'' = None \<and> isAllowed sample_URL ''not a url'' = False
   \<and> (\<exists>u. sample_URL ''https://accounts.x.ai/login'' = Some u \<and> protocol u = ''https:'' \<and>
           (\<exists>a \<in> set ALLOWED_HOSTS.
              ci_equal (hostname u) a \<or> ci_endsWith (hostname u) (''.'' @ a)))"
  using isAllowed_iff_spec [of sample_URL "''not a url''"]
    isAllowed_iff_spec [of sample_URL "''https://accounts.x.ai/login''"]
    sample_URL_unparsed isAllowed_accounts
  by simp

text \<open>
  C7. If \<^verbatim>\<open>shouldOpenExternally\<close> is true of a string, the string parses with protocol
  \<^verbatim>\<open>http:\<close> or \<^verbatim>\<open>https:\<close> and \<^verbatim>\<open>isAllowed\<close> is false of it; \<^verbatim>\<open>shouldOpenExternally\<close> is
  false of every URL with another protocol, whatever its host, and of every string that
  does not parse.
\<close>

theorem shouldOpenExternally_sound:
  "(shouldOpenExternally parse s \<longrightarrow>
      (\<exists>u. parse s = Some u \<and> isHttpUrl u \<and> \<not> isAllowed parse s))
   \<and> (\<forall>u. parse s = Some u \<and> \<not> isHttpUrl u \<longrightarrow> \<not> shouldOpenExternally parse s)
   \<and> (parse s = None \<longrightarrow> \<not> shouldOpenExternally parse s)"
  by (auto simp: shouldOpenExternally_def split: option.splits if_splits)

lemma shouldOpenExternally_evil: "shouldOpenExternally sample_URL ''https://notgrok.com.evil.net/''"
  by (simp add: shouldOpenExternally_def sample_URL_evil isHttpUrl_def isAllowed_evil)

theorem shouldOpenExternally_sound_witness:
  "shouldOpenExternally sample_URL ''https://notgrok.com.evil.net/''
   \<and> (\<exists>u. sample_URL ''https://notgrok.com.evil.net/'' = Some u \<and> isHttpUrl u)
   \<and> \<not> isAllowed sample_URL ''https://notgrok.com.evil.net/''
   \<and> sample_URL ''mailto:someone@grok.com'' = Some \<lparr>protocol = ''mailto:'', hostname = []\<rparr>
   \<and> \<not> isHttpUrl \<lparr>protocol = ''mailto:'', hostname = []\<rparr>
   \<and> \<not> shouldOpenExternally sample_URL ''mailto:someone@grok.com''
   \<and> sample_URL ''not a url'' = None
   \<and> \<not> shouldOpenExternally sample_URL ''not a url''"
  using shouldOpenExternally_sound [of sample_URL "''https://notgrok.com.evil.net/''"]
    shouldOpenExternally_sound [of sample_URL "''mailto:someone@grok.com''"]
    shouldOpenExternally_sound [of sample_URL "''not a url''"]
    shouldOpenExternally_evil sample_URL_mailto sample_URL_unparsed sample_URL_evil isAllowed_evil
  by (simp add: isHttpUrl_def)

section \<open>Properties of the navigation interceptor\<close>

text \<open>
  C1. For every URL with protocol \<^verbatim>\<open>http:\<close> or \<^verbatim>\<open>https:\<close> that \<^verbatim>\<open>isAllowed\<close> rejects: the
  request filter cancels the request, the window-open handler denies the window, and
  \<^verbatim>\<open>will-navigate\<close> and \<^verbatim>\<open>will-redirect\<close> prevent the navigation; the three top-level
  handlers each hand the URL to the default browser.
\<close>

theorem disallowed_never_in_shell:
  assumes "parse s = Some u" and "isHttpUrl u" and "\<not> isAllowed parse s"
  shows "fst (onBeforeRequest parse s) = True
       \<and> windowOpenHandler parse s = (Deny, [OpenExternal s])
       \<and> will_navigate parse s = (True, [OpenExternal s])
       \<and> will_redirect parse s = (True, [OpenExternal s])"
  using assms
  by (simp add: onBeforeRequest_def windowOpenHandler_def will_navigate_def will_redirect_def
      shouldOpenExternally_def isHttpUrl_def)

theorem disallowed_never_in_shell_witness:
  "sample_URL ''http://grok.com/'' = Some \<lparr>protocol = ''http:'', hostname = ''grok.com''\<rparr>
   \<and> isHttpUrl \<lparr>protocol = ''http:'', hostname = ''grok.com''\<rparr>
   \<and> \<not> isAllowed sample_URL ''http://grok.com/''
   \<and> fst (onBeforeRequest sample_URL ''http://grok.com/'') = True
   \<and> windowOpenHandler sample_URL ''http://grok.com/'' = (Deny, [OpenExternal ''http://grok.com/''])
   \<and> will_navigate sample_URL ''http://grok.com/'' = (True, [OpenExternal ''http://grok.com/''])
   \<and> will_redirect sample_URL ''http://grok.com/'' = (True, [OpenExternal ''http://grok.com/''])"
proof -
  have h: "isHttpUrl \<lparr>protocol = ''http:'', hostname = ''grok.com''\<rparr>"
    by (simp add: isHttpUrl_def)
  show ?thesis
    using disallowed_never_in_shell [OF sample_URL_http h isAllowed_http] sample_URL_http h
      isAllowed_http
    by simp
qed

text \<open>
  C3, as the code has it. For every request URL string. If it parses with a protocol
  other than \<^verbatim>\<open>http:\<close> and \<^verbatim>\<open>https:\<close>, the request proceeds and nothing is logged. If it
  parses with \<^verbatim>\<open>http:\<close> or \<^verbatim>\<open>https:\<close>, the request is cancelled when \<^verbatim>\<open>isAllowed\<close> is
  false, with exactly one log line that carries the URL, and proceeds with no log line
  when \<^verbatim>\<open>isAllowed\<close> is true. If it does not parse, the request is cancelled and
  nothing is logged. So a cancelled request is logged exactly when its URL parses, and
  no request is logged more than once or with another URL.
\<close>

theorem onBeforeRequest_policy:
  "(\<forall>u. parse s = Some u \<longrightarrow>
      (\<not> isHttpUrl u \<longrightarrow> onBeforeRequest parse s = (False, []))
    \<and> (isHttpUrl u \<and> \<not> isAllowed parse s \<longrightarrow>
         onBeforeRequest parse s = (True, [ConsoleLog ''[BLOCKED]'' s]))
    \<and> (isAllowed parse s \<longrightarrow> onBeforeRequest parse s = (False, []))
    \<and> (fst (onBeforeRequest parse s) \<longrightarrow>
         snd (onBeforeRequest parse s) = [ConsoleLog ''[BLOCKED]'' s]))
   \<and> (parse s = None \<longrightarrow> onBeforeRequest parse s = (True, []))
   \<and> (snd (onBeforeRequest parse s) = [] \<or>
      snd (onBeforeRequest parse s) = [ConsoleLog ''[BLOCKED]'' s])"
  by (auto simp: onBeforeRequest_def isHttpUrl_def split: option.splits dest: isAllowed_https)

theorem onBeforeRequest_policy_witness:
  "sample_URL ''mailto:someone@grok.com'' = Some \<lparr>protocol = ''mailto:'', hostname = []\<rparr>
   \<and> onBeforeRequest sample_URL ''mailto:someone@grok.com'' = (False, [])
   \<and> (\<exists>u. sample_URL ''https://notgrok.com.evil.net/'' = Some u \<and> isHttpUrl u)
   \<and> \<not> isAllowed sample_URL ''https://notgrok.com.evil.net/''
   \<and> onBeforeRequest sample_URL ''https://notgrok.com.evil.net/'' =
       (True, [ConsoleLog ''[BLOCKED]'' ''https://notgrok.com.evil.net/''])
   \<and> isAllowed sample_URL ''https://accounts.x.ai/login''
   \<and> onBeforeRequest sample_URL ''https://accounts.x.ai/login'' = (False, [])
   \<and> sample_URL ''not a url'' = None
   \<and> onBeforeRequest sample_URL ''not a url'' = (True, [])"
  using onBeforeRequest_policy [of sample_URL "''mailto:someone@grok.com''"]
    onBeforeRequest_policy [of sample_URL "''https://notgrok.com.evil.net/''"]
    onBeforeRequest_policy [of sample_URL "''https://accounts.x.ai/login''"]
    onBeforeRequest_policy [of sample_URL "''not a url''"]
    sample_URL_mailto sample_URL_evil sample_URL_accounts sample_URL_unparsed
    isAllowed_evil isAllowed_accounts
  by (simp add: isHttpUrl_def)

text \<open>
  The clause that every blocked request is logged with its URL fails on a string that
  does not parse: the request is cancelled and the log stays empty.
\<close>

theorem onBeforeRequest_unparsed_not_logged:
  "fst (onBeforeRequest sample_URL ''not a url'') = True
   \<and> snd (onBeforeRequest sample_URL ''not a url'') \<noteq> [ConsoleLog ''[BLOCKED]'' ''not a url'']
   \<and> snd (onBeforeRequest sample_URL ''not a url'') = []"
  by (simp add: onBeforeRequest_def sample_URL_unparsed)

text \<open>
  C8. For every target of a window-open request the handler answers \<^verbatim>\<open>deny\<close>; a target
  that parses with protocol \<^verbatim>\<open>http:\<close> or \<^verbatim>\<open>https:\<close> is handed to the default browser
  once; any other target, the unparseable included, is handed to nobody.
\<close>

theorem windowOpenHandler_always_denies:
  "fst (windowOpenHandler parse s) = Deny
   \<and> (\<forall>u. parse s = Some u \<and> isHttpUrl u \<longrightarrow>
        snd (windowOpenHandler parse s) = [OpenExternal s])
   \<and> (parse s = None \<or> (\<exists>u. parse s = Some u \<and> \<not> isHttpUrl u) \<longrightarrow>
        snd (windowOpenHandler parse s) = [])"
  by (auto simp: windowOpenHandler_def isHttpUrl_def)

theorem windowOpenHandler_always_denies_witness:
  "windowOpenHandler sample_URL ''https://accounts.x.ai/login'' =
     (Deny, [OpenExternal ''https://accounts.x.ai/login''])
   \<and> windowOpenHandler sample_URL ''mailto:someone@grok.com'' = (Deny, [])
   \<and> windowOpenHandler sample_URL ''not a url'' = (Deny, [])"
  using windowOpenHandler_always_denies [of sample_URL "''https://accounts.x.ai/login''"]
    windowOpenHandler_always_denies [of sample_URL "''mailto:someone@grok.com''"]
    windowOpenHandler_always_denies [of sample_URL "''not a url''"]
    sample_URL_mailto sample_URL_unparsed sample_URL_accounts
  by (simp add: isHttpUrl_def prod_eq_iff)

section \<open>Properties of the restore-state store\<close>

lemma write_succeeds:
  "can_write f \<Longrightarrow>
   writeRestoreUrl f u now =
     f\<lparr>state_file := Some (JSONText (JObject [(''restoreUrl'', JString u), (''ts'', JNumber now)]))\<rparr>"
  by (simp add: writeRestoreUrl_def writeFileSync_def JSON_stringify_def)

lemma write_refused: "\<not> can_write f \<Longrightarrow> writeRestoreUrl f u now = f"
  by (simp add: writeRestoreUrl_def writeFileSync_def)

lemma clear_succeeds: "can_unlink f \<Longrightarrow> clearRestoreUrl f = f\<lparr>state_file := None\<rparr>"
  by (cases "state_file f") (simp_all add: clearRestoreUrl_def unlinkSync_def)

lemma clear_refused: "\<not> can_unlink f \<Longrightarrow> clearRestoreUrl f = f"
  by (simp add: clearRestoreUrl_def unlinkSync_def split: option.splits)

lemma clear_missing: "state_file f = None \<Longrightarrow> clearRestoreUrl f = f"
  by (simp add: clearRestoreUrl_def unlinkSync_def)

lemma read_after_write:
  "can_write f \<Longrightarrow> can_read f \<Longrightarrow> readRestoreUrl (writeRestoreUrl f u now) = Some u"
  by (simp add: write_succeeds readRestoreUrl_def readFileSync_def JSON_parse_def property_def)

lemma read_missing: "state_file f = None \<Longrightarrow> readRestoreUrl f = None"
  by (simp add: readRestoreUrl_def readFileSync_def)

lemma read_after_clear: "can_unlink f \<Longrightarrow> readRestoreUrl (clearRestoreUrl f) = None"
  by (simp add: clear_succeeds read_missing)

lemma read_after_clear_missing: "state_file f = None \<Longrightarrow> readRestoreUrl (clearRestoreUrl f) = None"
  by (simp add: clear_missing read_missing)

lemma read_unreadable: "\<not> can_read f \<Longrightarrow> readRestoreUrl f = None"
  by (simp add: readRestoreUrl_def readFileSync_def split: option.splits)

lemma can_unlink_write: "can_unlink (writeRestoreUrl f u now) = can_unlink f"
  by (simp add: writeRestoreUrl_def writeFileSync_def)

lemma read_not_json: "state_file f = Some (NotJSON t) \<Longrightarrow> readRestoreUrl f = None"
  by (simp add: readRestoreUrl_def readFileSync_def JSON_parse_def)

lemma read_wrong_shape:
  "state_file f = Some (JSONText v) \<Longrightarrow> \<forall>r. property v ''restoreUrl'' \<noteq> Some (JString r)
   \<Longrightarrow> readRestoreUrl f = None"
  by (auto simp: readRestoreUrl_def readFileSync_def JSON_parse_def
      split: option.splits json.splits)

text \<open>
  C6, as the code has it. For every string \<open>u\<close> and every store. A write that the file
  system accepts replaces the file by the record of \<open>u\<close>, and when the file can be read
  back \<^verbatim>\<open>read()\<close> then returns \<open>u\<close>; a write that it refuses leaves the store as it was.
  An unlink that the file system accepts removes the file, and \<^verbatim>\<open>read()\<close> after
  \<^verbatim>\<open>clear()\<close> returns absent, also right after a write; an unlink that it refuses, or
  that finds no file, leaves the store as it was, and with no file \<^verbatim>\<open>read()\<close> returns
  absent. \<^verbatim>\<open>read()\<close> returns absent over a missing file, an unreadable file, a file that
  is not JSON, and a JSON file whose \<^verbatim>\<open>restoreUrl\<close> is not a string; it has no outcome
  but a string or absent.
\<close>

theorem restore_round_trip:
  "(can_write f \<longrightarrow>
      writeRestoreUrl f u now =
        f\<lparr>state_file :=
            Some (JSONText (JObject [(''restoreUrl'', JString u), (''ts'', JNumber now)]))\<rparr>)
   \<and> (can_write f \<and> can_read f \<longrightarrow> readRestoreUrl (writeRestoreUrl f u now) = Some u)
   \<and> (\<not> can_write f \<longrightarrow> writeRestoreUrl f u now = f)
   \<and> (can_unlink f \<longrightarrow>
        clearRestoreUrl f = f\<lparr>state_file := None\<rparr>
      \<and> readRestoreUrl (clearRestoreUrl f) = None
      \<and> readRestoreUrl (clearRestoreUrl (writeRestoreUrl f u now)) = None)
   \<and> (\<not> can_unlink f \<or> state_file f = None \<longrightarrow> clearRestoreUrl f = f)
   \<and> (state_file f = None \<longrightarrow>
        readRestoreUrl f = None \<and> readRestoreUrl (clearRestoreUrl f) = None)
   \<and> (\<not> can_read f \<longrightarrow> readRestoreUrl f = None)
   \<and> (\<forall>t. state_file f = Some (NotJSON t) \<longrightarrow> readRestoreUrl f = None)
   \<and> (\<forall>v. state_file f = Some (JSONText v)
           \<and> (\<forall>r. property v ''restoreUrl'' \<noteq> Some (JString r))
         \<longrightarrow> readRestoreUrl f = None)"
proof -
  have "can_unlink f \<Longrightarrow> readRestoreUrl (clearRestoreUrl (writeRestoreUrl f u now)) = None"
    by (rule read_after_clear) (simp add: can_unlink_write)
  then show ?thesis
    using write_succeeds [of f u now] read_after_write [of f u now] write_refused [of f u now]
      clear_succeeds [of f] read_after_clear [of f] clear_refused [of f] clear_missing [of f]
      read_missing [of f] read_after_clear_missing [of f] read_unreadable [of f]
      read_not_json [of f] read_wrong_shape [of f]
    by blast
qed

text \<open>
  The round trip on concrete stores: an empty store with every permission, a store that
  refuses writes, a store that accepts writes and refuses the unlink, a store holding
  text that is not JSON, and one whose \<^verbatim>\<open>restoreUrl\<close> is a number.
\<close>

theorem restore_round_trip_witness:
  "can_write empty_store \<and> can_read empty_store \<and> can_unlink empty_store
   \<and> state_file empty_store = None
   \<and> readRestoreUrl (writeRestoreUrl empty_store ''https://grok.com/chat/42'' 1700000000000)
       = Some ''https://grok.com/chat/42''
   \<and> readRestoreUrl
       (clearRestoreUrl (writeRestoreUrl empty_store ''https://grok.com/chat/42'' 1700000000000))
       = None
   \<and> readRestoreUrl empty_store = None
   \<and> \<not> can_write read_only_store
   \<and> writeRestoreUrl read_only_store ''https://grok.com/chat/42'' 1700000000000 = read_only_store
   \<and> \<not> can_unlink (writeRestoreUrl sticky_store ''https://grok.com/chat/42'' 1700000000000)
   \<and> clearRestoreUrl (writeRestoreUrl sticky_store ''https://grok.com/chat/42'' 1700000000000)
       = writeRestoreUrl sticky_store ''https://grok.com/chat/42'' 1700000000000
   \<and> readRestoreUrl
       \<lparr>state_file = Some (NotJSON ''<html>''), can_read = True, can_write = True,
        can_unlink = True\<rparr> = None
   \<and> readRestoreUrl
       \<lparr>state_file = Some (JSONText (JObject [(''restoreUrl'', JNumber 7)])),
        can_read = True, can_write = True, can_unlink = True\<rparr> = None
   \<and> readRestoreUrl
       \<lparr>state_file = Some (record_of ''https://grok.com/chat/42'' 1700000000000),
        can_read = False, can_write = True, can_unlink = True\<rparr> = None"
proof -
  let ?u = "''https://grok.com/chat/42''"
  let ?w = "writeRestoreUrl sticky_store ?u 1700000000000"
  let ?html = "\<lparr>state_file = Some (NotJSON ''<html>''), can_read = True, can_write = True,
                can_unlink = True\<rparr>"
  let ?num = "\<lparr>state_file = Some (JSONText (JObject [(''restoreUrl'', JNumber 7)])),
               can_read = True, can_write = True, can_unlink = True\<rparr>"
  let ?dark = "\<lparr>state_file = Some (record_of ?u 1700000000000),
                can_read = False, can_write = True, can_unlink = True\<rparr>"
  have perms: "can_write empty_store" "can_read empty_store" "can_unlink empty_store"
    "state_file empty_store = None"
    by (simp_all add: empty_store_def)
  have ro: "\<not> can_write read_only_store"
    by (simp add: read_only_store_def)
  have st: "\<not> can_unlink ?w"
    by (simp add: can_unlink_write sticky_store_def)
  have html: "state_file ?html = Some (NotJSON ''<html>'')"
    by simp
  have num: "state_file ?num = Some (JSONText (JObject [(''restoreUrl'', JNumber 7)]))
             \<and> (\<forall>r. property (JObject [(''restoreUrl'', JNumber 7)]) ''restoreUrl'' \<noteq> Some (JString r))"
    by (simp add: property_def)
  have dark: "\<not> can_read ?dark"
    by simp
  from restore_round_trip [of empty_store ?u 1700000000000] perms
  have a: "readRestoreUrl (writeRestoreUrl empty_store ?u 1700000000000) = Some ?u"
    "readRestoreUrl (clearRestoreUrl (writeRestoreUrl empty_store ?u 1700000000000)) = None"
    "readRestoreUrl empty_store = None"
    by blast+
  from restore_round_trip [of read_only_store ?u 1700000000000] ro
  have b: "writeRestoreUrl read_only_store ?u 1700000000000 = read_only_store"
    by blast
  from restore_round_trip [of ?w] st
  have c: "clearRestoreUrl ?w = ?w"
    by blast
  from restore_round_trip [of ?html] html
  have d: "readRestoreUrl ?html = None"
    by blast
  from restore_round_trip [of ?num] num
  have e: "readRestoreUrl ?num = None"
    by blast
  from restore_round_trip [of ?dark] dark
  have g: "readRestoreUrl ?dark = None"
    by blast
  from perms ro st a b c d e g show ?thesis
    by blast
qed

text \<open>
  The round trip as the specification states it, without the proviso, fails on two
  stores. On one that refuses writes, the write is swallowed and the read finds no file.
  On one that accepts writes and refuses the unlink, the write is read back, the unlink
  is swallowed, and the read after \<^verbatim>\<open>clear()\<close> still finds the record.
\<close>

theorem restore_round_trip_unwritable:
  "readRestoreUrl (writeRestoreUrl read_only_store ''https://grok.com/chat/42'' 1700000000000)
     \<noteq> Some ''https://grok.com/chat/42''
   \<and> readRestoreUrl (writeRestoreUrl sticky_store ''https://grok.com/chat/42'' 1700000000000)
       = Some ''https://grok.com/chat/42''
   \<and> readRestoreUrl
       (clearRestoreUrl (writeRestoreUrl sticky_store ''https://grok.com/chat/42'' 1700000000000))
     \<noteq> None"
  by (simp add: readRestoreUrl_def writeRestoreUrl_def clearRestoreUrl_def writeFileSync_def
      readFileSync_def unlinkSync_def JSON_stringify_def JSON_parse_def property_def
      read_only_store_def sticky_store_def)


section \<open>Properties of the single-instance coordinator\<close>

lemma live_win_Some:
  "live_win s = Some i \<longleftrightarrow>
     win s = Some i \<and> i < length (all_windows s) \<and> \<not> destroyed (all_windows s ! i)"
  by (auto simp: live_win_def split: option.splits)

lemma live_win_None:
  "win s = None \<or> (\<exists>i. win s = Some i \<and> destroyed (all_windows s ! i)) \<Longrightarrow> live_win s = None"
  by (auto simp: live_win_def split: option.splits)

lemma emit_fields [simp]:
  "trace (emit x s) = trace s @ [x]"
  "files (emit x s) = files s"
  "all_windows (emit x s) = all_windows s"
  "win (emit x s) = win s"
  "isWindowCreationStarted (emit x s) = isWindowCreationStarted s"
  by (simp_all add: emit_def)

lemma update_window_fields [simp]:
  "trace (update_window i g s) = trace s"
  "files (update_window i g s) = files s"
  "all_windows (update_window i g s) = (all_windows s)[i := g (all_windows s ! i)]"
  "win (update_window i g s) = win s"
  "isWindowCreationStarted (update_window i g s) = isWindowCreationStarted s"
  by (simp_all add: update_window_def)

lemma bring_forward_fields:
  "files (bring_forward i s) = files s"
  "win (bring_forward i s) = win s"
  "isWindowCreationStarted (bring_forward i s) = isWindowCreationStarted s"
  "length (all_windows (bring_forward i s)) = length (all_windows s)"
  by (simp_all add: bring_forward_def win_restore_def win_show_def win_focus_def Let_def)

lemma bring_forward_trace:
  "i < length (all_windows s) \<Longrightarrow>
   trace (bring_forward i s) =
     trace s @ (if minimized (all_windows s ! i) then [WinRestore i] else [])
             @ (if \<not> visible (all_windows s ! i) then [WinShow i] else [])
             @ [WinFocus i]"
  by (simp add: bring_forward_def win_restore_def win_show_def win_focus_def Let_def)

lemma bring_forward_window:
  "i < length (all_windows s) \<Longrightarrow>
   focused (all_windows (bring_forward i s) ! i)
   \<and> visible (all_windows (bring_forward i s) ! i)
   \<and> \<not> minimized (all_windows (bring_forward i s) ! i)
   \<and> destroyed (all_windows (bring_forward i s) ! i) = destroyed (all_windows s ! i)"
  by (simp add: bring_forward_def win_restore_def win_show_def win_focus_def Let_def)

lemma safeGetCurrentUrl_live:
  "live_win s = Some i \<Longrightarrow> parse [] = None \<Longrightarrow>
   safeGetCurrentUrl parse s =
     (if isAllowed parse (current_url (all_windows s ! i))
      then Some (current_url (all_windows s ! i)) else None)"
  by (auto simp: safeGetCurrentUrl_def Let_def isAllowed_def)

text \<open>
  C10. When the window reference is null or the window it refers to is destroyed, the
  \<^verbatim>\<open>second-instance\<close> handler returns the shell state it was given: nothing is written,
  no quit is requested, no window call and no notification is made. The earlier
  revision's handler does the same on a null reference.
\<close>

theorem second_instance_without_window:
  assumes "win s = None \<or> (\<exists>i. win s = Some i \<and> destroyed (all_windows s ! i))"
  shows "second_instance e now s = s
       \<and> (win s = None \<longrightarrow> second_instance_part_000 e now s = Inr s)"
  using live_win_None [OF assms]
  by (simp add: second_instance_def second_instance_part_000_def)

theorem second_instance_without_window_witness:
  "win (initial empty_store) = None
   \<and> second_instance sample_env 5 (initial empty_store) = initial empty_store
   \<and> second_instance_part_000 sample_env 5 (initial empty_store) = Inr (initial empty_store)
   \<and> win closed_shell = Some 0 \<and> destroyed (all_windows closed_shell ! 0)
   \<and> second_instance sample_env 5 closed_shell = closed_shell"
proof -
  have a: "win (initial empty_store) = None \<or>
           (\<exists>i. win (initial empty_store) = Some i
                \<and> destroyed (all_windows (initial empty_store) ! i))"
    by (simp add: initial_def)
  have b: "win closed_shell = None \<or>
           (\<exists>i. win closed_shell = Some i \<and> destroyed (all_windows closed_shell ! i))"
    by (simp add: closed_shell_def new_window_def)
  show ?thesis
    using second_instance_without_window [OF a, of sample_env 5]
      second_instance_without_window [OF b, of sample_env 5] a b
    by (simp add: initial_def closed_shell_def new_window_def)
qed


lemma second_instance_quit:
  assumes "live_win s = Some i" and "parse_url e [] = None"
    and "focused (all_windows s ! i)" and "visible (all_windows s ! i)"
    and "\<not> minimized (all_windows s ! i)"
  shows "second_instance e now s =
           emit AppQuit
             (if isAllowed (parse_url e) (current_url (all_windows s ! i))
              then s\<lparr>files := writeRestoreUrl (files s) (current_url (all_windows s ! i)) now\<rparr>
              else s)"
  using assms safeGetCurrentUrl_live [of s i "parse_url e"]
  by (simp add: second_instance_def Let_def)

lemma second_instance_forward:
  assumes "live_win s = Some i"
    and "\<not> (focused (all_windows s ! i) \<and> visible (all_windows s ! i)
            \<and> \<not> minimized (all_windows s ! i))"
  shows "second_instance e now s =
           (if notification_supported e then emit NotificationShow (bring_forward i s)
            else bring_forward i s)"
  using assms by (auto simp: second_instance_def Let_def)

text \<open>
  C5. On a \<^verbatim>\<open>second-instance\<close> signal with a live window. If the window is focused,
  visible and not minimized: the store receives \<^verbatim>\<open>write\<close> of the window's current URL
  exactly when \<^verbatim>\<open>isAllowed\<close> holds of that URL (on a store that accepts the write, a read
  then returns that URL) and is untouched otherwise, and the one effect is the quit
  request. In every other visibility state: the store is untouched, the effects are
  \<^verbatim>\<open>restore\<close> (when minimized), \<^verbatim>\<open>show\<close> (when not visible), \<^verbatim>\<open>focus\<close> and the notification
  (when supported), with no quit request, and the window ends focused, visible and not
  minimized. The parser rejects the empty string, as \<^verbatim>\<open>new URL('')\<close> does.
\<close>

theorem second_instance_with_window:
  assumes "live_win s = Some i" and "parse_url e [] = None"
  shows "(let w = all_windows s ! i; s' = second_instance e now s in
          (focused w \<and> visible w \<and> \<not> minimized w \<longrightarrow>
             files s' = (if isAllowed (parse_url e) (current_url w)
                         then writeRestoreUrl (files s) (current_url w) now else files s)
           \<and> (isAllowed (parse_url e) (current_url w) \<and> can_write (files s) \<and> can_read (files s)
                \<longrightarrow> readRestoreUrl (files s') = Some (current_url w))
           \<and> trace s' = trace s @ [AppQuit]
           \<and> all_windows s' = all_windows s)
        \<and> (\<not> (focused w \<and> visible w \<and> \<not> minimized w) \<longrightarrow>
             files s' = files s
           \<and> trace s' = trace s @ (if minimized w then [WinRestore i] else [])
                                 @ (if \<not> visible w then [WinShow i] else [])
                                 @ [WinFocus i]
                                 @ (if notification_supported e then [NotificationShow] else [])
           \<and> focused (all_windows s' ! i) \<and> visible (all_windows s' ! i)
           \<and> \<not> minimized (all_windows s' ! i)))"
proof -
  have len: "i < length (all_windows s)"
    using assms(1) by (simp add: live_win_Some)
  have quit: "focused (all_windows s ! i) \<and> visible (all_windows s ! i)
              \<and> \<not> minimized (all_windows s ! i) \<Longrightarrow> ?thesis"
    using second_instance_quit [OF assms, of now]
    by (simp add: Let_def read_after_write)
  have forward: "\<not> (focused (all_windows s ! i) \<and> visible (all_windows s ! i)
              \<and> \<not> minimized (all_windows s ! i)) \<Longrightarrow> ?thesis"
    using second_instance_forward [OF assms(1), of e now] bring_forward_trace [OF len]
      bring_forward_window [OF len] bring_forward_fields(1) [of i s]
    by (simp add: Let_def)
  from quit forward show ?thesis by blast
qed

lemma live_one_window: "live_win (one_window f v m u) = Some 0"
  by (simp add: live_win_def one_window_def new_window_def)

lemma sample_env_empty: "parse_url sample_env [] = None"
  by (simp add: sample_env_def sample_URL_empty)

theorem second_instance_with_window_witness:
  "live_win (one_window True True False ''https://grok.com/chat/42'') = Some 0
   \<and> parse_url sample_env [] = None
   \<and> files (second_instance sample_env 1700000000000
              (one_window True True False ''https://grok.com/chat/42''))
       = store_with ''https://grok.com/chat/42''
   \<and> trace (second_instance sample_env 1700000000000
              (one_window True True False ''https://grok.com/chat/42'')) = [AppQuit]
   \<and> live_win (one_window False False True ''https://grok.com/chat/42'') = Some 0
   \<and> files (second_instance sample_env 1700000000000
              (one_window False False True ''https://grok.com/chat/42'')) = empty_store
   \<and> trace (second_instance sample_env 1700000000000
              (one_window False False True ''https://grok.com/chat/42''))
       = [WinRestore 0, WinShow 0, WinFocus 0, NotificationShow]"
  using second_instance_with_window
      [OF live_one_window sample_env_empty, of True True False "''https://grok.com/chat/42''"
        1700000000000]
    second_instance_with_window
      [OF live_one_window sample_env_empty, of False False True "''https://grok.com/chat/42''"
        1700000000000]
    live_one_window sample_env_empty isAllowed_chat
  by (simp add: Let_def one_window_def new_window_def sample_env_def store_with_def
      record_of_def empty_store_def writeRestoreUrl_def writeFileSync_def JSON_stringify_def)


section \<open>Properties of the shell window controller\<close>

lemma startUrl_choice:
  "parse [] = None \<Longrightarrow>
   startUrl parse f =
     (case readRestoreUrl f of
        None \<Rightarrow> default_url
      | Some r \<Rightarrow> if isAllowed parse r then r else default_url)"
  by (auto simp: startUrl_def isAllowed_def split: option.splits)

lemma createWindow_fresh:
  assumes "live_win s = None" and "\<not> isWindowCreationStarted s"
  shows "createWindow e s =
           emit (LoadURL (length (all_windows s)) (startUrl (parse_url e) (files s)))
             (s\<lparr>isWindowCreationStarted := True,
                win := Some (length (all_windows s)),
                all_windows := all_windows s
                  @ [new_window (startUrl (parse_url e) (files s) \<noteq> default_url)]\<rparr>)"
  using assms by (simp add: createWindow_def Let_def)

lemma hooks_after_create:
  assumes "live_win s = None" and "\<not> isWindowCreationStarted s"
  shows "files (did_finish_load (length (all_windows s)) (createWindow e s)) =
           (if startUrl (parse_url e) (files s) \<noteq> default_url
            then clearRestoreUrl (files s) else files s)"
    and "files (did_fail_load (length (all_windows s)) (createWindow e s)) =
           (if startUrl (parse_url e) (files s) \<noteq> default_url
            then clearRestoreUrl (files s) else files s)"
  by (simp_all add: createWindow_fresh [OF assms] did_finish_load_def did_fail_load_def
      new_window_def)

lemma load_hooks:
  assumes "i < length (all_windows t)" and "\<not> destroyed (all_windows t ! i)"
  shows "files (did_finish_load i t) =
           (if clear_on_finish (all_windows t ! i) then clearRestoreUrl (files t) else files t)"
    and "\<not> clear_on_finish (all_windows (did_finish_load i t) ! i)"
    and "clear_on_fail (all_windows (did_finish_load i t) ! i) = clear_on_fail (all_windows t ! i)"
    and "files (did_fail_load i t) =
           (if clear_on_fail (all_windows t ! i) then clearRestoreUrl (files t) else files t)"
    and "\<not> clear_on_fail (all_windows (did_fail_load i t) ! i)"
    and "clear_on_finish (all_windows (did_fail_load i t) ! i) = clear_on_finish (all_windows t ! i)"
  using assms by (simp_all add: did_finish_load_def did_fail_load_def)

lemma load_keeps_window:
  assumes "i < length (all_windows t)" and "\<not> destroyed (all_windows t ! i)"
  shows "i < length (all_windows (did_finish_load i t))"
    and "\<not> destroyed (all_windows (did_finish_load i t) ! i)"
    and "i < length (all_windows (did_fail_load i t))"
    and "\<not> destroyed (all_windows (did_fail_load i t) ! i)"
  using assms by (simp_all add: did_finish_load_def did_fail_load_def)

lemma created_window:
  assumes "live_win s = None" and "\<not> isWindowCreationStarted s"
  shows "length (all_windows s) < length (all_windows (createWindow e s))"
    and "all_windows (createWindow e s) ! length (all_windows s) =
           new_window (startUrl (parse_url e) (files s) \<noteq> default_url)"
  by (simp_all add: createWindow_fresh [OF assms])

text \<open>
  C4, as the code has it. A window creation that passes the guard takes as start URL the
  stored restore URL exactly when one is read and \<^verbatim>\<open>isAllowed\<close> holds of it, and
  \<^verbatim>\<open>https://grok.com/\<close> otherwise, and loads it; creation itself leaves the store as it
  is. The new window is live, and its \<^verbatim>\<open>did-finish-load\<close> hook and its \<^verbatim>\<open>did-fail-load\<close>
  hook are both registered when the start URL is not the default and both absent when it
  is. On a live window, in any state, an event whose hook is registered runs \<^verbatim>\<open>clear()\<close>
  and an event whose hook is absent leaves the store alone; after the event its own hook
  is absent and the other hook is as it was, and the window is still live. So with a
  start URL other than the default the first load completion, success or failure, runs
  \<^verbatim>\<open>clear()\<close>, after which a store that accepts the unlink reads absent; with the
  default start URL neither event touches the store. The parser rejects the empty
  string, as \<^verbatim>\<open>new URL('')\<close> does.
\<close>

theorem createWindow_restore:
  assumes "live_win s = None" and "\<not> isWindowCreationStarted s" and "parse_url e [] = None"
  shows "(let i = length (all_windows s); start = startUrl (parse_url e) (files s);
              s' = createWindow e s in
          start = (case readRestoreUrl (files s) of
                     None \<Rightarrow> default_url
                   | Some r \<Rightarrow> if isAllowed (parse_url e) r then r else default_url)
        \<and> trace s' = trace s @ [LoadURL i start]
        \<and> files s' = files s
        \<and> i < length (all_windows s') \<and> \<not> destroyed (all_windows s' ! i)
        \<and> clear_on_finish (all_windows s' ! i) = (start \<noteq> default_url)
        \<and> clear_on_fail (all_windows s' ! i) = (start \<noteq> default_url)
        \<and> (\<forall>t. i < length (all_windows t) \<and> \<not> destroyed (all_windows t ! i) \<longrightarrow>
               files (did_finish_load i t) =
                 (if clear_on_finish (all_windows t ! i) then clearRestoreUrl (files t)
                  else files t)
             \<and> \<not> clear_on_finish (all_windows (did_finish_load i t) ! i)
             \<and> clear_on_fail (all_windows (did_finish_load i t) ! i)
                 = clear_on_fail (all_windows t ! i)
             \<and> i < length (all_windows (did_finish_load i t))
             \<and> \<not> destroyed (all_windows (did_finish_load i t) ! i)
             \<and> files (did_fail_load i t) =
                 (if clear_on_fail (all_windows t ! i) then clearRestoreUrl (files t)
                  else files t)
             \<and> \<not> clear_on_fail (all_windows (did_fail_load i t) ! i)
             \<and> clear_on_finish (all_windows (did_fail_load i t) ! i)
                 = clear_on_finish (all_windows t ! i)
             \<and> i < length (all_windows (did_fail_load i t))
             \<and> \<not> destroyed (all_windows (did_fail_load i t) ! i))
        \<and> (start \<noteq> default_url \<longrightarrow>
             files (did_finish_load i s') = clearRestoreUrl (files s)
           \<and> files (did_fail_load i s') = clearRestoreUrl (files s)
           \<and> (can_unlink (files s) \<longrightarrow>
                readRestoreUrl (files (did_finish_load i s')) = None
              \<and> readRestoreUrl (files (did_fail_load i s')) = None))
        \<and> (start = default_url \<longrightarrow>
             files (did_finish_load i s') = files s
           \<and> files (did_fail_load i s') = files s))"
proof -
  let ?i = "length (all_windows s)"
  let ?start = "startUrl (parse_url e) (files s)"
  let ?s' = "createWindow e s"
  have start: "?start = (case readRestoreUrl (files s) of
                           None \<Rightarrow> default_url
                         | Some r \<Rightarrow> if isAllowed (parse_url e) r then r else default_url)"
    using assms(3) by (rule startUrl_choice)
  have tr: "trace ?s' = trace s @ [LoadURL ?i ?start]"
    by (simp add: createWindow_fresh [OF assms(1,2)])
  have fl: "files ?s' = files s"
    by (simp add: createWindow_fresh [OF assms(1,2)])
  have n1: "?i < length (all_windows ?s')"
    and n2: "\<not> destroyed (all_windows ?s' ! ?i)"
    and n3: "clear_on_finish (all_windows ?s' ! ?i) = (?start \<noteq> default_url)"
    and n4: "clear_on_fail (all_windows ?s' ! ?i) = (?start \<noteq> default_url)"
    by (simp_all add: created_window [OF assms(1,2)] new_window_def)
  have events:
    "\<forall>t. ?i < length (all_windows t) \<and> \<not> destroyed (all_windows t ! ?i) \<longrightarrow>
               files (did_finish_load ?i t) =
                 (if clear_on_finish (all_windows t ! ?i) then clearRestoreUrl (files t)
                  else files t)
             \<and> \<not> clear_on_finish (all_windows (did_finish_load ?i t) ! ?i)
             \<and> clear_on_fail (all_windows (did_finish_load ?i t) ! ?i)
                 = clear_on_fail (all_windows t ! ?i)
             \<and> ?i < length (all_windows (did_finish_load ?i t))
             \<and> \<not> destroyed (all_windows (did_finish_load ?i t) ! ?i)
             \<and> files (did_fail_load ?i t) =
                 (if clear_on_fail (all_windows t ! ?i) then clearRestoreUrl (files t)
                  else files t)
             \<and> \<not> clear_on_fail (all_windows (did_fail_load ?i t) ! ?i)
             \<and> clear_on_finish (all_windows (did_fail_load ?i t) ! ?i)
                 = clear_on_finish (all_windows t ! ?i)
             \<and> ?i < length (all_windows (did_fail_load ?i t))
             \<and> \<not> destroyed (all_windows (did_fail_load ?i t) ! ?i)"
  proof (intro allI impI)
    fix t :: shell
    assume "?i < length (all_windows t) \<and> \<not> destroyed (all_windows t ! ?i)"
    then have a: "?i < length (all_windows t)" and b: "\<not> destroyed (all_windows t ! ?i)"
      by simp_all
    show "files (did_finish_load ?i t) =
                 (if clear_on_finish (all_windows t ! ?i) then clearRestoreUrl (files t)
                  else files t)
             \<and> \<not> clear_on_finish (all_windows (did_finish_load ?i t) ! ?i)
             \<and> clear_on_fail (all_windows (did_finish_load ?i t) ! ?i)
                 = clear_on_fail (all_windows t ! ?i)
             \<and> ?i < length (all_windows (did_finish_load ?i t))
             \<and> \<not> destroyed (all_windows (did_finish_load ?i t) ! ?i)
             \<and> files (did_fail_load ?i t) =
                 (if clear_on_fail (all_windows t ! ?i) then clearRestoreUrl (files t)
                  else files t)
             \<and> \<not> clear_on_fail (all_windows (did_fail_load ?i t) ! ?i)
             \<and> clear_on_finish (all_windows (did_fail_load ?i t) ! ?i)
                 = clear_on_finish (all_windows t ! ?i)
             \<and> ?i < length (all_windows (did_fail_load ?i t))
             \<and> \<not> destroyed (all_windows (did_fail_load ?i t) ! ?i)"
      by (intro conjI) (rule load_hooks [OF a b] load_keeps_window [OF a b])+
  qed
  have h1: "?start \<noteq> default_url \<longrightarrow>
        files (did_finish_load ?i ?s') = clearRestoreUrl (files s)
      \<and> files (did_fail_load ?i ?s') = clearRestoreUrl (files s)
      \<and> (can_unlink (files s) \<longrightarrow>
           readRestoreUrl (files (did_finish_load ?i ?s')) = None
         \<and> readRestoreUrl (files (did_fail_load ?i ?s')) = None)"
    by (simp add: hooks_after_create [OF assms(1,2)] read_after_clear)
  have h2: "?start = default_url \<longrightarrow>
          files (did_finish_load ?i ?s') = files s
        \<and> files (did_fail_load ?i ?s') = files s"
    by (simp add: hooks_after_create [OF assms(1,2)])
  show ?thesis
    unfolding Let_def
    by (intro conjI) (rule start tr fl n1 n2 n3 n4 events h1 h2)+
qed

lemma initial_fields [simp]:
  "files (initial f) = f"
  "trace (initial f) = []"
  "all_windows (initial f) = []"
  "win (initial f) = None"
  by (simp_all add: initial_def)

lemma sample_env_parse: "parse_url sample_env = sample_URL"
  by (simp add: sample_env_def)

lemma can_unlink_store_with: "can_unlink (store_with u)"
  by (simp add: store_with_def)

lemma live_initial: "live_win (initial f) = None"
  by (simp add: live_win_def initial_def)

lemma flag_initial: "\<not> isWindowCreationStarted (initial f)"
  by (simp add: initial_def)

lemma read_store_with: "readRestoreUrl (store_with u) = Some u"
  by (simp add: store_with_def record_of_def readRestoreUrl_def readFileSync_def
      JSON_parse_def property_def)

lemma sample_URL_example:
  "sample_URL ''https://example.org/'' = Some \<lparr>protocol = ''https:'', hostname = ''example.org''\<rparr>"
  by (simp add: sample_URL_def)

lemma isAllowed_example: "\<not> isAllowed sample_URL ''https://example.org/''"
  by (simp add: isAllowed_def sample_URL_example ALLOWED_HOSTS_def toLowerCase_def
      lowerChar_def endsWith_def)

lemma startUrl_chat:
  "startUrl sample_URL (store_with ''https://grok.com/chat/42'') = ''https://grok.com/chat/42''"
  by (simp add: startUrl_def read_store_with isAllowed_chat)

lemma startUrl_home: "startUrl sample_URL (store_with ''https://grok.com/'') = default_url"
  by (simp add: startUrl_def read_store_with default_url_def)

lemma startUrl_example: "startUrl sample_URL (store_with ''https://example.org/'') = default_url"
  by (simp add: startUrl_def read_store_with isAllowed_example)

theorem createWindow_restore_witness:
  "live_win (initial (store_with ''https://grok.com/chat/42'')) = None
   \<and> \<not> isWindowCreationStarted (initial (store_with ''https://grok.com/chat/42''))
   \<and> parse_url sample_env [] = None
   \<and> trace (createWindow sample_env (initial (store_with ''https://grok.com/chat/42'')))
       = [LoadURL 0 ''https://grok.com/chat/42'']
   \<and> readRestoreUrl
       (files (did_fail_load 0
                 (createWindow sample_env (initial (store_with ''https://grok.com/chat/42'')))))
       = None
   \<and> readRestoreUrl
       (files (did_finish_load 0
                 (createWindow sample_env (initial (store_with ''https://grok.com/chat/42'')))))
       = None
   \<and> files (did_finish_load 0
               (did_finish_load 0
                  (createWindow sample_env (initial (store_with ''https://grok.com/chat/42'')))))
       = files (did_finish_load 0
                  (createWindow sample_env (initial (store_with ''https://grok.com/chat/42''))))
   \<and> clear_on_fail
       (all_windows
          (did_finish_load 0
             (createWindow sample_env (initial (store_with ''https://grok.com/chat/42'')))) ! 0)"
proof -
  let ?f = "store_with ''https://grok.com/chat/42''"
  let ?s' = "createWindow sample_env (initial ?f)"
  let ?s1 = "did_finish_load 0 ?s'"
  note t = createWindow_restore [OF live_initial flag_initial sample_env_empty, of ?f,
      unfolded Let_def initial_fields list.size sample_env_parse startUrl_chat]
  have ne: "''https://grok.com/chat/42'' \<noteq> default_url"
    by (simp add: default_url_def)
  from t have tr: "trace ?s' = [LoadURL 0 ''https://grok.com/chat/42'']"
    by simp
  from t ne can_unlink_store_with [of "''https://grok.com/chat/42''"]
  have rd: "readRestoreUrl (files (did_fail_load 0 ?s')) = None"
    "readRestoreUrl (files (did_finish_load 0 ?s')) = None"
    by blast+
  from t ne have live: "0 < length (all_windows ?s') \<and> \<not> destroyed (all_windows ?s' ! 0)"
    and hk: "clear_on_fail (all_windows ?s' ! 0)"
    by blast+
  from t have ev: "\<And>t. 0 < length (all_windows t) \<and> \<not> destroyed (all_windows t ! 0) \<Longrightarrow>
      \<not> clear_on_finish (all_windows (did_finish_load 0 t) ! 0)
      \<and> clear_on_fail (all_windows (did_finish_load 0 t) ! 0) = clear_on_fail (all_windows t ! 0)
      \<and> 0 < length (all_windows (did_finish_load 0 t))
      \<and> \<not> destroyed (all_windows (did_finish_load 0 t) ! 0)
      \<and> files (did_finish_load 0 t) =
           (if clear_on_finish (all_windows t ! 0) then clearRestoreUrl (files t) else files t)"
    by blast
  from ev [OF live] hk have s1: "\<not> clear_on_finish (all_windows ?s1 ! 0)"
    "clear_on_fail (all_windows ?s1 ! 0)"
    "0 < length (all_windows ?s1) \<and> \<not> destroyed (all_windows ?s1 ! 0)"
    by blast+
  from ev [OF s1(3)] s1(1) have again: "files (did_finish_load 0 ?s1) = files ?s1"
    by simp
  from live_initial flag_initial sample_env_empty tr rd again s1(2) show ?thesis
    by blast
qed

text \<open>
  The clause on consumption, as the specification states it, fails on two stores. A
  record equal to the default URL is used as the start URL and is still there after the
  page has loaded; a record that \<^verbatim>\<open>isAllowed\<close> rejects is never used and is still there
  after the window has been created and its page has loaded or failed.
\<close>

theorem restore_record_left_in_place:
  "startUrl sample_URL (store_with ''https://grok.com/'') = ''https://grok.com/''
   \<and> readRestoreUrl
       (files (did_finish_load 0
                 (createWindow sample_env (initial (store_with ''https://grok.com/'')))))
       = Some ''https://grok.com/''
   \<and> startUrl sample_URL (store_with ''https://example.org/'') = ''https://grok.com/''
   \<and> readRestoreUrl
       (files (createWindow sample_env (initial (store_with ''https://example.org/''))))
       = Some ''https://example.org/''
   \<and> readRestoreUrl
       (files (did_fail_load 0
                 (createWindow sample_env (initial (store_with ''https://example.org/'')))))
       = Some ''https://example.org/''"
  using startUrl_home startUrl_example
    hooks_after_create
      [OF live_initial flag_initial, where e = sample_env and f1 = "store_with ''https://grok.com/''"]
    hooks_after_create
      [OF live_initial flag_initial, where e = sample_env and f1 = "store_with ''https://example.org/''"]
  by (simp add: createWindow_fresh [OF live_initial flag_initial] read_store_with
      sample_env_parse default_url_def)


subsection \<open>At most one window\<close>

lemma single_window_initial: "single_window (initial f)"
  by (simp add: single_window_def initial_def)

lemma single_window_ref:
  "single_window s \<Longrightarrow> i < length (all_windows s) \<Longrightarrow> \<not> destroyed (all_windows s ! i)
   \<Longrightarrow> win s = Some i"
  unfolding single_window_def by blast

lemma single_window_live_ref:
  "single_window s \<Longrightarrow> win s = Some i
   \<Longrightarrow> i < length (all_windows s) \<and> \<not> destroyed (all_windows s ! i)"
  unfolding single_window_def by blast

lemma single_window_flag:
  "single_window s \<Longrightarrow> isWindowCreationStarted s \<longleftrightarrow> win s \<noteq> None"
  unfolding single_window_def by blast

lemma filter_at_most_one:
  "(\<forall>i < length xs. P (xs ! i) \<longrightarrow> i = k) \<Longrightarrow> length (filter P xs) \<le> 1"
proof (induction xs rule: rev_induct)
  case Nil
  then show ?case by simp
next
  case (snoc x xs)
  have below: "\<forall>i < length xs. P (xs ! i) \<longrightarrow> i = k"
  proof (intro allI impI)
    fix i assume "i < length xs" and "P (xs ! i)"
    with snoc.prems [rule_format, of i] show "i = k"
      by (simp add: nth_append)
  qed
  show ?case
  proof (cases "P x")
    case False
    with snoc.IH [OF below] show ?thesis by simp
  next
    case True
    with snoc.prems [rule_format, of "length xs"] have k: "k = length xs"
      by simp
    have "filter P xs = []"
      unfolding filter_empty_conv
    proof
      fix y assume "y \<in> set xs"
      then obtain i where "i < length xs" and "xs ! i = y"
        by (auto simp: in_set_conv_nth)
      with below k show "\<not> P y" by auto
    qed
    with True show ?thesis by simp
  qed
qed

lemma single_window_count:
  assumes "single_window s"
  shows "length (getAllWindows s) \<le> 1"
proof -
  obtain k where k: "win s = None \<or> win s = Some k"
    by (cases "win s") auto
  have "\<forall>i < length (all_windows s). \<not> destroyed (all_windows s ! i) \<longrightarrow> i = k"
  proof (intro allI impI)
    fix i assume "i < length (all_windows s)" and "\<not> destroyed (all_windows s ! i)"
    with assms have "win s = Some i"
      by (rule single_window_ref)
    with k show "i = k" by auto
  qed
  then show ?thesis
    unfolding getAllWindows_def by (rule filter_at_most_one)
qed

text \<open>
  The invariant reads \<^verbatim>\<open>win\<close>, the flag and which windows are destroyed, and nothing
  else.
\<close>

lemma single_window_cong:
  assumes "win s' = win s"
    and "isWindowCreationStarted s' = isWindowCreationStarted s"
    and "map destroyed (all_windows s') = map destroyed (all_windows s)"
  shows "single_window s' = single_window s"
proof -
  have len: "length (all_windows s') = length (all_windows s)"
    using assms(3) by (rule map_eq_imp_length_eq)
  have "destroyed (all_windows s' ! i) = destroyed (all_windows s ! i)"
    if "i < length (all_windows s)" for i
    using that len assms(3) by (metis nth_map)
  then show ?thesis
    using assms(1,2) len unfolding single_window_def by auto
qed

lemma map_destroyed_update:
  assumes "destroyed (g (xs ! i)) = destroyed (xs ! i)"
  shows "map destroyed (xs[i := g (xs ! i)]) = map destroyed xs"
proof (cases "i < length xs")
  case True
  with assms show ?thesis
    by (simp add: map_update list_update_same_conv)
next
  case False
  then have "xs[i := g (xs ! i)] = xs"
    by (simp add: list_update_beyond)
  then show ?thesis by simp
qed

lemma single_window_update:
  "destroyed (g (all_windows s ! i)) = destroyed (all_windows s ! i) \<Longrightarrow>
   single_window (update_window i g s) = single_window s"
  by (rule single_window_cong) (simp_all add: map_destroyed_update)

lemma single_window_emit: "single_window (emit x s) = single_window s"
  by (rule single_window_cong) simp_all

lemma single_window_files: "single_window (s\<lparr>files := f\<rparr>) = single_window s"
  by (rule single_window_cong) simp_all

lemma single_window_win_ops:
  "single_window (win_focus i s) = single_window s"
  "single_window (win_show i s) = single_window s"
  "single_window (win_restore i s) = single_window s"
  by (simp_all add: win_focus_def win_show_def win_restore_def single_window_emit
      single_window_update)

lemma single_window_bring_forward: "single_window (bring_forward i s) = single_window s"
  by (simp add: bring_forward_def Let_def single_window_win_ops)

lemma single_window_second_instance:
  "single_window s \<Longrightarrow> single_window (second_instance e now s)"
  by (simp add: second_instance_def Let_def single_window_emit single_window_files
      single_window_bring_forward split: option.splits)

lemma single_window_notification_click:
  "single_window s \<Longrightarrow> single_window (notification_click s)"
  by (simp add: notification_click_def Let_def single_window_win_ops split: option.splits)

lemma single_window_window_changed:
  "single_window s \<Longrightarrow> single_window (window_changed i f v m u s)"
  by (simp add: window_changed_def single_window_update)

lemma single_window_did_finish_load:
  "single_window s \<Longrightarrow> single_window (did_finish_load i s)"
  by (simp add: did_finish_load_def single_window_files single_window_update)

lemma single_window_did_fail_load:
  "single_window s \<Longrightarrow> single_window (did_fail_load i s)"
  by (simp add: did_fail_load_def single_window_files single_window_update)

lemma single_window_window_closed:
  assumes "single_window s"
  shows "single_window (window_closed i s)"
proof (cases "i < length (all_windows s) \<and> \<not> destroyed (all_windows s ! i)")
  case False
  then have "window_closed i s = s"
    by (auto simp: window_closed_def)
  with assms show ?thesis by simp
next
  case True
  let ?s' = "window_closed i s"
  from True have wi: "win s = Some i"
    using assms by (blast intro: single_window_ref)
  have w: "win ?s' = None"
    and fl: "\<not> isWindowCreationStarted ?s'"
    and ws: "all_windows ?s' = (all_windows s)[i := (all_windows s ! i)\<lparr>destroyed := True\<rparr>]"
    using True by (simp_all add: window_closed_def)
  have dead: "destroyed (all_windows ?s' ! j)" if "j < length (all_windows ?s')" for j
  proof (cases "j = i")
    case True
    with that show ?thesis by (simp add: ws)
  next
    case False
    from that have j: "j < length (all_windows s)"
      by (simp add: ws)
    have "destroyed (all_windows s ! j)"
    proof (rule ccontr)
      assume "\<not> destroyed (all_windows s ! j)"
      with j have "win s = Some j"
        using assms by (blast intro: single_window_ref)
      with wi False show False by simp
    qed
    with False show ?thesis by (simp add: ws)
  qed
  show ?thesis
    unfolding single_window_def using dead w fl by auto
qed

lemma single_window_createWindow:
  assumes "single_window s"
  shows "single_window (createWindow e s)"
proof (cases "isWindowCreationStarted s \<or> live_win s \<noteq> None")
  case True
  show ?thesis
  proof (cases "live_win s")
    case None
    with True have "createWindow e s = s"
      by (simp add: createWindow_def)
    with assms show ?thesis by simp
  next
    case (Some i)
    then have "createWindow e s = win_focus i s"
      by (simp add: createWindow_def)
    with assms show ?thesis
      by (simp add: single_window_win_ops)
  qed
next
  case False
  then have fresh: "live_win s = None" "\<not> isWindowCreationStarted s"
    by simp_all
  with assms have none: "win s = None"
    using single_window_flag by blast
  have dead: "destroyed (all_windows s ! i)" if "i < length (all_windows s)" for i
    using that none single_window_ref [OF assms, of i] by auto
  let ?n = "length (all_windows s)"
  let ?w = "new_window (startUrl (parse_url e) (files s) \<noteq> default_url)"
  let ?s' = "createWindow e s"
  have w: "win ?s' = Some ?n"
    and fl: "isWindowCreationStarted ?s'"
    and ws: "all_windows ?s' = all_windows s @ [?w]"
    by (simp_all add: createWindow_fresh [OF fresh])
  have new: "\<not> destroyed ?w"
    by (simp add: new_window_def)
  have a: "win ?s' = Some i"
    if "i < length (all_windows ?s')" and "\<not> destroyed (all_windows ?s' ! i)" for i
  proof (cases "i < ?n")
    case True
    with that(2) dead [OF True] show ?thesis
      by (simp add: ws nth_append)
  next
    case False
    with that(1) have "i = ?n"
      by (simp add: ws)
    with w show ?thesis by simp
  qed
  have b: "i < length (all_windows ?s') \<and> \<not> destroyed (all_windows ?s' ! i)"
    if "win ?s' = Some i" for i
  proof -
    from that w have "i = ?n" by simp
    with new show ?thesis by (simp add: ws)
  qed
  show ?thesis
    unfolding single_window_def using a b w fl by auto
qed

lemma single_window_handle: "single_window s \<Longrightarrow> single_window (handle e s ev)"
  by (cases ev)
    (simp_all add: single_window_createWindow single_window_second_instance
      single_window_window_closed single_window_emit single_window_notification_click
      single_window_did_finish_load single_window_did_fail_load single_window_window_changed)

lemma single_window_run: "single_window s \<Longrightarrow> single_window (run e s evs)"
  unfolding run_def
  by (induction evs arbitrary: s) (simp_all add: single_window_handle)

lemma single_window_live:
  assumes "single_window s" and "isWindowCreationStarted s \<or> live_win s \<noteq> None"
  shows "\<exists>i. live_win s = Some i"
proof (cases "live_win s")
  case (Some i)
  then show ?thesis by blast
next
  case None
  with assms(2) have "win s \<noteq> None"
    using single_window_flag [OF assms(1)] by simp
  then obtain i where i: "win s = Some i" by auto
  from single_window_live_ref [OF assms(1) i] i have "live_win s = Some i"
    by (simp add: live_win_Some)
  then show ?thesis by blast
qed

lemma createWindow_guarded:
  "live_win s = Some i \<Longrightarrow> createWindow e s = win_focus i s"
  by (simp add: createWindow_def)


lemma win_focus_length: "length (all_windows (win_focus i s)) = length (all_windows s)"
  by (simp add: win_focus_def)

lemma win_focus_trace: "trace (win_focus i s) = trace s @ [WinFocus i]"
  by (simp add: win_focus_def)

text \<open>
  C9. In every state the shell reaches from its start, by any sequence of events, at most
  one window is not destroyed, and that still holds after any further event (the
  \<^verbatim>\<open>activate\<close> event and the \<^verbatim>\<open>closed\<close> handler among them). In such a state, a call of
  \<^verbatim>\<open>createWindow\<close> while the flag is set or a window is live finds a live window, creates
  none, and its one effect is \<^verbatim>\<open>focus\<close> on that window.
\<close>

theorem at_most_one_window:
  "(let s = run e (initial f) evs in
      length (getAllWindows s) \<le> 1
    \<and> length (getAllWindows (handle e s ev)) \<le> 1
    \<and> (isWindowCreationStarted s \<or> live_win s \<noteq> None \<longrightarrow>
         (\<exists>i. live_win s = Some i
            \<and> createWindow e s = win_focus i s
            \<and> length (all_windows (createWindow e s)) = length (all_windows s)
            \<and> trace (createWindow e s) = trace s @ [WinFocus i])))"
proof -
  let ?s = "run e (initial f) evs"
  have inv: "single_window ?s"
    using single_window_initial by (rule single_window_run)
  have one: "length (getAllWindows ?s) \<le> 1"
    using inv by (rule single_window_count)
  have next_one: "length (getAllWindows (handle e ?s ev)) \<le> 1"
    using inv by (intro single_window_count single_window_handle)
  have guard: "\<exists>i. live_win ?s = Some i
            \<and> createWindow e ?s = win_focus i ?s
            \<and> length (all_windows (createWindow e ?s)) = length (all_windows ?s)
            \<and> trace (createWindow e ?s) = trace ?s @ [WinFocus i]"
    if "isWindowCreationStarted ?s \<or> live_win ?s \<noteq> None"
  proof -
    from single_window_live [OF inv that] obtain i where i: "live_win ?s = Some i" ..
    then have "createWindow e ?s = win_focus i ?s"
      by (rule createWindow_guarded)
    with i show ?thesis
      by (simp add: win_focus_length win_focus_trace)
  qed
  show ?thesis
    unfolding Let_def using one next_one guard by blast
qed

lemma ready_state:
  "run sample_env (initial empty_store) [AppReady] =
     \<lparr>win = Some 0, isWindowCreationStarted = True, all_windows = [new_window False],
      files = empty_store, trace = [LoadURL 0 ''https://grok.com/'']\<rparr>"
proof -
  have start: "startUrl (parse_url sample_env) empty_store = default_url"
    by (simp add: startUrl_def read_missing empty_store_def)
  have "run sample_env (initial empty_store) [AppReady] =
          createWindow sample_env (initial empty_store)"
    by (simp add: run_def)
  also have "\<dots> =
          emit (LoadURL 0 default_url)
            ((initial empty_store)
               \<lparr>isWindowCreationStarted := True, win := Some 0,
                all_windows := [new_window False]\<rparr>)"
    using createWindow_fresh [OF live_initial flag_initial, of sample_env empty_store]
    by (simp add: start)
  also have "\<dots> =
          \<lparr>win = Some 0, isWindowCreationStarted = True, all_windows = [new_window False],
           files = empty_store, trace = [LoadURL 0 ''https://grok.com/'']\<rparr>"
    by (simp add: emit_def initial_def default_url_def)
  finally show ?thesis .
qed

theorem at_most_one_window_witness:
  "isWindowCreationStarted (run sample_env (initial empty_store) [AppReady])
   \<and> length (getAllWindows (run sample_env (initial empty_store) [AppReady])) \<le> 1
   \<and> length (getAllWindows
               (handle sample_env (run sample_env (initial empty_store) [AppReady]) Activate)) \<le> 1
   \<and> live_win (run sample_env (initial empty_store) [AppReady]) = Some 0
   \<and> length (all_windows
               (createWindow sample_env (run sample_env (initial empty_store) [AppReady]))) = 1
   \<and> trace (createWindow sample_env (run sample_env (initial empty_store) [AppReady]))
       = [LoadURL 0 ''https://grok.com/'', WinFocus 0]"
proof -
  let ?s = "run sample_env (initial empty_store) [AppReady]"
  note t = at_most_one_window [of sample_env empty_store "[AppReady]" Activate, unfolded Let_def]
  have flag: "isWindowCreationStarted ?s"
    by (simp add: ready_state)
  have live0: "live_win ?s = Some 0"
    by (simp add: ready_state live_win_def new_window_def)
  have len: "length (all_windows ?s) = 1" and tr: "trace ?s = [LoadURL 0 ''https://grok.com/'']"
    by (simp_all add: ready_state)
  from t have c1: "length (getAllWindows ?s) \<le> 1"
    and c2: "length (getAllWindows (handle sample_env ?s Activate)) \<le> 1"
    by blast+
  from t flag live0
  have "length (all_windows (createWindow sample_env ?s)) = length (all_windows ?s)"
    and "trace (createWindow sample_env ?s) = trace ?s @ [WinFocus 0]"
    by auto
  with len tr have c3: "length (all_windows (createWindow sample_env ?s)) = 1"
    and c4: "trace (createWindow sample_env ?s) = [LoadURL 0 ''https://grok.com/'', WinFocus 0]"
    by simp_all
  from flag c1 c2 live0 c3 c4 show ?thesis by blast
qed


end
